theory Spec2Isabelle
  imports Main "HOL-Library.Word"
begin

section \<open>The App component: board, status effect, chat\<close>

text \<open>
  The repository holds one React component, \<^verbatim>\<open>App\<close>, in two revisions: the earlier one
  has the board only, the later one adds the chat. The board code (\<^verbatim>\<open>handleClick\<close>,
  \<^verbatim>\<open>handleReset\<close>, the status effect, \<^verbatim>\<open>calculateWinner\<close>, \<^verbatim>\<open>isCellWinning\<close>) is the same
  text in both. The model below is the later revision: the component's state is a record
  of its \<^verbatim>\<open>useState\<close> cells, and every handler is a function from the state before the
  event to the state after the re-render that the event causes.
\<close>

subsection \<open>JavaScript values held by the board\<close>

text \<open>
  A square holds \<^verbatim>\<open>null\<close>, \<^verbatim>\<open>'X'\<close> or \<^verbatim>\<open>'O'\<close>. Reading an array past its end, or at a
  hole, gives \<^verbatim>\<open>undefined\<close>. Strict equality \<^verbatim>\<open>===\<close> on these four values is equality of
  the datatype.
\<close>

datatype jsval = Undefined | Null | StrX | StrO

fun truthy :: "jsval \<Rightarrow> bool" where
  "truthy StrX = True"
| "truthy StrO = True"
| "truthy Null = False"
| "truthy Undefined = False"

text \<open>\<^verbatim>\<open>sq[i]\<close>: a read never fails; out of range it is \<^verbatim>\<open>undefined\<close>.\<close>

definition js_nth :: "jsval list \<Rightarrow> nat \<Rightarrow> jsval" where
  "js_nth sq i = (if i < length sq then sq ! i else Undefined)"

text \<open>
  \<^verbatim>\<open>next[i] = v\<close>: a write past the end extends the array, and the slots in between
  are holes. A hole is written \<open>Undefined\<close> in the list; the code never stores
  \<^verbatim>\<open>undefined\<close> itself, so an \<open>Undefined\<close> entry is always a hole. This is the
  code for an array index, \<open>i < 2 ^ 32 - 1\<close>; a larger number is stored as a plain
  property, which the next \<^verbatim>\<open>slice()\<close> drops, and is outside this definition. The
  properties of event sequences below are stated for clicks on the nine cells.
\<close>

definition js_update :: "jsval list \<Rightarrow> nat \<Rightarrow> jsval \<Rightarrow> jsval list" where
  "js_update sq i v =
     (if i < length sq then sq[i := v]
      else sq @ replicate (i - length sq) Undefined @ [v])"

text \<open>\<^verbatim>\<open>squares.every((sq) => sq)\<close>: \<^verbatim>\<open>every\<close> does not visit holes.\<close>

definition every_truthy :: "jsval list \<Rightarrow> bool" where
  "every_truthy sq = list_all (\<lambda>c. c = Undefined \<or> truthy c) sq"

text \<open>The text a value gives inside a template literal.\<close>

fun template_text :: "jsval \<Rightarrow> string" where
  "template_text StrX = ''X''"
| "template_text StrO = ''O''"
| "template_text Null = ''null''"
| "template_text Undefined = ''undefined''"

subsection \<open>calculateWinner and isCellWinning\<close>

definition lines :: "(nat \<times> nat \<times> nat) list" where
  "lines = [(0, 1, 2), (3, 4, 5), (6, 7, 8),
            (0, 3, 6), (1, 4, 7), (2, 5, 8),
            (0, 4, 8), (2, 4, 6)]"

text \<open>The \<^verbatim>\<open>for ... of lines\<close> loop of \<^verbatim>\<open>calculateWinner\<close>, on the lines still to visit.\<close>

fun calculateWinner_loop :: "jsval list \<Rightarrow> (nat \<times> nat \<times> nat) list \<Rightarrow> jsval" where
  "calculateWinner_loop sq [] = Null"
| "calculateWinner_loop sq ((a, b, c) # rest) =
     (if truthy (js_nth sq a) \<and> js_nth sq a = js_nth sq b \<and> js_nth sq a = js_nth sq c
      then js_nth sq a
      else calculateWinner_loop sq rest)"

definition calculateWinner :: "jsval list \<Rightarrow> jsval" where
  "calculateWinner sq = calculateWinner_loop sq lines"

text \<open>The loop of \<^verbatim>\<open>isCellWinning\<close>; \<^verbatim>\<open>line.includes(idx)\<close> is membership in the triple.\<close>

fun isCellWinning_loop :: "nat \<Rightarrow> jsval list \<Rightarrow> (nat \<times> nat \<times> nat) list \<Rightarrow> bool" where
  "isCellWinning_loop idx sq [] = False"
| "isCellWinning_loop idx sq ((a, b, c) # rest) =
     (if truthy (js_nth sq a) \<and> js_nth sq a = js_nth sq b \<and> js_nth sq a = js_nth sq c
         \<and> idx \<in> set [a, b, c]
      then True
      else isCellWinning_loop idx sq rest)"

definition isCellWinning :: "nat \<Rightarrow> jsval list \<Rightarrow> bool" where
  "isCellWinning idx sq = isCellWinning_loop idx sq lines"

subsection \<open>Chat messages\<close>

text \<open>
  A JavaScript string is a sequence of UTF-16 code units. A message is the object
  \<^verbatim>\<open>{text, reactions, matchReactions}\<close>; \<^verbatim>\<open>reactions\<close> is an object used as a dictionary
  from emoji to count. Counts are JavaScript numbers that only ever hold small
  non-negative integers here; they are modelled as unbounded integers (exact for a
  number below \<open>2 ^ 53\<close>).
\<close>

type_synonym jsstring = "16 word list"

record message =
  msg_text :: jsstring
  reactions :: "jsstring \<rightharpoonup> int"
  matchReactions :: int

definition EMOJIS :: "jsstring list" where
  "EMOJIS = [[0xD83D, 0xDE00], [0xD83C, 0xDF89], [0xD83D, 0xDC4D],
             [0xD83D, 0xDE32], [0x2764, 0xFE0F]]"

definition MATCH_REACTION_ICON :: jsstring where
  "MATCH_REACTION_ICON = [0xD83C, 0xDFC6]"

text \<open>
  \<^verbatim>\<open>String.prototype.trim\<close> removes the white space and line terminators of ECMAScript
  from both ends.
\<close>

definition isWhiteSpace :: "16 word \<Rightarrow> bool" where
  "isWhiteSpace c =
     (c \<in> set [0x9, 0xA, 0xB, 0xC, 0xD, 0x20, 0xA0, 0x1680, 0x2028, 0x2029,
               0x202F, 0x205F, 0x3000, 0xFEFF]
      \<or> (0x2000 \<le> c \<and> c \<le> 0x200A))"

definition trim :: "jsstring \<Rightarrow> jsstring" where
  "trim s = rev (dropWhile isWhiteSpace (rev (dropWhile isWhiteSpace s)))"

subsection \<open>The component state\<close>

record app =
  squares :: "jsval list"
  isXNext :: bool
  status :: string
  winner :: jsval
  isDraw :: bool
  messages :: "message list"
  chatInput :: jsstring

definition initialState :: "jsval list" where
  "initialState = replicate 9 Null"

text \<open>
  The effect \<^verbatim>\<open>useEffect(..., [squares, isXNext])\<close>: it runs after every render in which
  the board or the turn changed, and after the first render.
\<close>

definition statusEffect :: "app \<Rightarrow> app" where
  "statusEffect st =
     (let win = calculateWinner (squares st) in
      if truthy win then
        st\<lparr>winner := win,
           status := ''Player '' @ (if win = StrX then ''1'' else ''2'')
                     @ '' ('' @ template_text win @ '') wins!'',
           isDraw := False\<rparr>
      else if every_truthy (squares st) then
        st\<lparr>isDraw := True, status := ''It'' @ [CHR 0x27] @ ''s a draw!'', winner := Null\<rparr>
      else
        st\<lparr>isDraw := False, winner := Null,
           status := ''Next: Player '' @ (if isXNext st then ''1 (X)'' else ''2 (O)'')\<rparr>)"

text \<open>The state once the component is mounted: the \<^verbatim>\<open>useState\<close> defaults, then the effect.\<close>

definition mounted :: app where
  "mounted = statusEffect
     \<lparr>squares = initialState, isXNext = True, status = [], winner = Null,
      isDraw = False, messages = [], chatInput = []\<rparr>"

subsection \<open>Handlers\<close>

text \<open>
  \<^verbatim>\<open>handleClick\<close>: the early \<^verbatim>\<open>return\<close> sets no state, so nothing is rendered and the
  effect does not run; otherwise both setters are batched into one render, after which
  the effect runs.
\<close>

definition handleClick :: "nat \<Rightarrow> app \<Rightarrow> app" where
  "handleClick idx st =
     (if truthy (js_nth (squares st) idx) \<or> truthy (winner st) then st
      else statusEffect
             (st\<lparr>squares := js_update (squares st) idx (if isXNext st then StrX else StrO),
                 isXNext := \<not> isXNext st\<rparr>))"

text \<open>
  \<^verbatim>\<open>handleReset\<close>: \<^verbatim>\<open>initialState\<close> is a fresh array in every render, so the board
  reference changes and the effect runs after the five setters.
\<close>

definition handleReset :: "app \<Rightarrow> app" where
  "handleReset st =
     statusEffect
       (st\<lparr>squares := initialState, isXNext := True, status := [],
           winner := Null, isDraw := False\<rparr>)"

text \<open>The \<^verbatim>\<open>onChange\<close> of the chat input.\<close>

definition setChatInput :: "jsstring \<Rightarrow> app \<Rightarrow> app" where
  "setChatInput v st = st\<lparr>chatInput := v\<rparr>"

text \<open>
  \<^verbatim>\<open>handleSendMessage\<close>: the first component is the value the handler returns. Both of
  its exits, the bare \<^verbatim>\<open>return;\<close> and the end of the body, return \<^verbatim>\<open>undefined\<close>, written
  \<open>None\<close>; a returned index would be \<open>Some i\<close>. \<^verbatim>\<open>e.preventDefault()\<close> touches no state.
\<close>

definition handleSendMessage :: "app \<Rightarrow> nat option \<times> app" where
  "handleSendMessage st =
     (let trimmed = trim (chatInput st) in
      if trimmed = [] then (None, st)
      else (None,
            st\<lparr>messages := messages st @
                  [\<lparr>msg_text = trimmed, reactions = Map.empty, matchReactions = 0\<rparr>],
               chatInput := []\<rparr>))"

text \<open>
  \<^verbatim>\<open>handleReact\<close>: \<^verbatim>\<open>msgs.map((m, i) => i === idx ? {...} : m)\<close>. Every message is created
  with a \<^verbatim>\<open>reactions\<close> object, so the guard \<^verbatim>\<open>m.reactions &&\<close> is always passed; a stored
  count of \<open>0\<close> is falsy and read as \<open>0\<close>. The read \<^verbatim>\<open>m.reactions[emoji]\<close> is a lookup in
  the dictionary: that is what the object gives for every key that is not the name of a
  property inherited from \<^verbatim>\<open>Object.prototype\<close>, and neither an emoji nor the trophy is one.
  A key such as \<^verbatim>\<open>"constructor"\<close> is outside this definition; the properties of event
  sequences below are stated for the symbols of \<open>EMOJIS\<close>.
\<close>

definition react_message :: "jsstring \<Rightarrow> message \<Rightarrow> message" where
  "react_message emoji m =
     m\<lparr>reactions := (reactions m)
          (emoji \<mapsto> (case reactions m emoji of
                        Some n \<Rightarrow> (if n \<noteq> 0 then n else 0)
                      | None \<Rightarrow> 0) + 1)\<rparr>"

definition handleReact :: "nat \<Rightarrow> jsstring \<Rightarrow> app \<Rightarrow> app" where
  "handleReact idx emoji st =
     st\<lparr>messages :=
          map (\<lambda>(i, m). if i = idx then react_message emoji m else m)
              (enumerate 0 (messages st))\<rparr>"

text \<open>\<^verbatim>\<open>handleMatchReaction\<close>: the trophy counter of one message.\<close>

definition handleMatchReaction :: "nat \<Rightarrow> app \<Rightarrow> app" where
  "handleMatchReaction idx st =
     st\<lparr>messages :=
          map (\<lambda>(i, m). if i = idx
                        then m\<lparr>matchReactions :=
                                 (if matchReactions m \<noteq> 0 then matchReactions m + 1 else 1)\<rparr>
                        else m)
              (enumerate 0 (messages st))\<rparr>"

subsection \<open>Event sequences\<close>

datatype command =
    Click nat
  | Reset
  | Input jsstring
  | Send
  | React nat jsstring
  | MatchReact nat

fun step :: "app \<Rightarrow> command \<Rightarrow> app" where
  "step st (Click idx) = handleClick idx st"
| "step st Reset = handleReset st"
| "step st (Input v) = setChatInput v st"
| "step st Send = snd (handleSendMessage st)"
| "step st (React idx emoji) = handleReact idx emoji st"
| "step st (MatchReact idx) = handleMatchReaction idx st"

definition run :: "command list \<Rightarrow> app \<Rightarrow> app" where
  "run cmds st = foldl step st cmds"

text \<open>The clicks the rendered board can send: its nine buttons carry the indices 0 to 8.\<close>

fun on_board :: "command \<Rightarrow> bool" where
  "on_board (Click idx) = (idx < 9)"
| "on_board _ = True"

text \<open>
  The reactions the rendered chat can send: the buttons under a message carry the
  symbols of \<open>EMOJIS\<close>.
\<close>

fun in_alphabet :: "command \<Rightarrow> bool" where
  "in_alphabet (React idx emoji) = (emoji \<in> set EMOJIS)"
| "in_alphabet _ = True"

subsection \<open>Views of the state\<close>

text \<open>
  The render reads the outcome off the state with \<^verbatim>\<open>winner ? ... : isDraw ? ... : {}\<close>
  (the style of the status line), the same three-way case as the effect's.
\<close>

datatype outcome = Win jsval | Draw | InProgress

definition outcome :: "app \<Rightarrow> outcome" where
  "outcome st = (if truthy (winner st) then Win (winner st)
                 else if isDraw st then Draw
                 else InProgress)"

text \<open>The test both loops apply to a line.\<close>

definition line_won :: "jsval list \<Rightarrow> nat \<times> nat \<times> nat \<Rightarrow> bool" where
  "line_won sq l =
     (case l of (a, b, c) \<Rightarrow>
        truthy (js_nth sq a) \<and> js_nth sq a = js_nth sq b \<and> js_nth sq a = js_nth sq c)"

text \<open>
  The count a message shows for a symbol, \<^verbatim>\<open>msg.reactions[e]\<close>, with a missing entry
  counted as \<open>0\<close>.
\<close>

definition reaction_count :: "message \<Rightarrow> jsstring \<Rightarrow> int" where
  "reaction_count m e = (case reactions m e of Some n \<Rightarrow> n | None \<Rightarrow> 0)"

subsection \<open>The specification's winning line\<close>

text \<open>
  The specification records a winning line with the outcome: the first line, in the
  order of \<open>lines\<close>, whose three cells are non-empty and identical, and it lets
  \<^verbatim>\<open>isCellInWinningLine(index)\<close> be membership in that line. The code records no line;
  these two definitions follow the specification's words, to be compared with
  \<open>isCellWinning\<close>.
\<close>

definition first_won_line :: "jsval list \<Rightarrow> (nat \<times> nat \<times> nat) option" where
  "first_won_line sq = find (line_won sq) lines"

definition spec_isCellInWinningLine :: "nat \<Rightarrow> jsval list \<Rightarrow> bool" where
  "spec_isCellInWinningLine idx sq =
     (case first_won_line sq of
        None \<Rightarrow> False
      | Some (a, b, c) \<Rightarrow> idx \<in> set [a, b, c])"

subsection \<open>Example boards and event sequences\<close>

text \<open>The full board X O X / X O O / O X X.\<close>

definition drawn_board :: app where
  "drawn_board =
     mounted\<lparr>squares := [StrX, StrO, StrX, StrX, StrO, StrO, StrO, StrX, StrX]\<rparr>"

text \<open>Five moves that fill the top row with X.\<close>

definition top_row_moves :: "command list" where
  "top_row_moves = [Click 0, Click 4, Click 1, Click 5, Click 2]"

text \<open>Nine moves whose last one, X at 0, completes the top row and the left column.\<close>

definition double_win_moves :: "command list" where
  "double_win_moves =
     [Click 1, Click 4, Click 2, Click 5, Click 3, Click 7, Click 6, Click 8, Click 0]"

text \<open>The texts \<^verbatim>\<open>"  hi  "\<close>, \<^verbatim>\<open>"hi"\<close> and \<^verbatim>\<open>"   "\<close>, and the thumbs-up of \<open>EMOJIS\<close>.\<close>

definition hi_padded :: jsstring where
  "hi_padded = [0x20, 0x20, 0x68, 0x69, 0x20, 0x20]"

definition hi :: jsstring where
  "hi = [0x68, 0x69]"

definition blanks :: jsstring where
  "blanks = [0x20, 0x20, 0x20]"

definition thumbs_up :: jsstring where
  "thumbs_up = [0xD83D, 0xDC4D]"

text \<open>The chat after one message has been sent.\<close>

definition one_message :: app where
  "one_message = run [Input hi_padded, Send] mounted"

section \<open>The outcome of a board\<close>

lemma calculateWinner_loop_truthy:
  "truthy (calculateWinner_loop sq ls) \<longleftrightarrow> (\<exists>l\<in>set ls. line_won sq l)"
  by (induction ls) (auto simp: line_won_def)

lemma line_won_mark:
  "line_won sq (a, b, c) \<longleftrightarrow>
   (\<exists>m\<in>{StrX, StrO}. js_nth sq a = m \<and> js_nth sq b = m \<and> js_nth sq c = m)"
  by (cases "js_nth sq a") (auto simp: line_won_def)

lemma line_won_fun:
  "line_won sq =
     (\<lambda>(a, b, c). \<exists>m\<in>{StrX, StrO}. js_nth sq a = m \<and> js_nth sq b = m \<and> js_nth sq c = m)"
  by (auto simp: fun_eq_iff line_won_mark)

lemma truthy_mark: "truthy c \<longleftrightarrow> c \<in> {StrX, StrO}"
  by (cases c) auto

lemma every_truthy_full:
  "Undefined \<notin> set sq \<Longrightarrow> every_truthy sq \<longleftrightarrow> (\<forall>c\<in>set sq. c \<in> {StrX, StrO})"
  by (auto simp: every_truthy_def list_all_iff truthy_mark)

lemma outcome_statusEffect:
  "outcome (statusEffect st) =
     (if truthy (calculateWinner (squares st)) then Win (calculateWinner (squares st))
      else if every_truthy (squares st) then Draw
      else InProgress)"
  by (simp add: outcome_def statusEffect_def Let_def)

text \<open>
  The eight lines are the three rows, the three columns and the two diagonals of the
  row-major grid, in that order.
\<close>

lemma lines_layout:
  "lines = map (\<lambda>r. (3 * r, 3 * r + 1, 3 * r + 2)) [0..<3]
           @ map (\<lambda>c. (c, c + 3, c + 6)) [0..<3]
           @ [(0, 4, 8), (2, 4, 6)]"
  by (simp add: lines_def upt_rec)

text \<open>
  C1. For a board of nine cells (no holes), the outcome the effect derives is a win
  exactly when one of the eight lines holds the same mark three times, a draw exactly
  when every cell holds a mark and no line is won, and in progress exactly when neither
  holds.
\<close>

theorem outcome_classification:
  assumes "length (squares st) = 9" and "Undefined \<notin> set (squares st)"
  shows "((\<exists>m. outcome (statusEffect st) = Win m) \<longleftrightarrow>
            (\<exists>(a, b, c)\<in>set lines. \<exists>m\<in>{StrX, StrO}.
               js_nth (squares st) a = m \<and> js_nth (squares st) b = m
               \<and> js_nth (squares st) c = m))
       \<and> (outcome (statusEffect st) = Draw \<longleftrightarrow>
            (\<forall>c\<in>set (squares st). c \<in> {StrX, StrO})
            \<and> \<not> (\<exists>(a, b, c)\<in>set lines. \<exists>m\<in>{StrX, StrO}.
               js_nth (squares st) a = m \<and> js_nth (squares st) b = m
               \<and> js_nth (squares st) c = m))
       \<and> (outcome (statusEffect st) = InProgress \<longleftrightarrow>
            \<not> (\<forall>c\<in>set (squares st). c \<in> {StrX, StrO})
            \<and> \<not> (\<exists>(a, b, c)\<in>set lines. \<exists>m\<in>{StrX, StrO}.
               js_nth (squares st) a = m \<and> js_nth (squares st) b = m
               \<and> js_nth (squares st) c = m))"
proof -
  let ?sq = "squares st"
  let ?P = "\<exists>(a, b, c)\<in>set lines. \<exists>m\<in>{StrX, StrO}.
               js_nth ?sq a = m \<and> js_nth ?sq b = m \<and> js_nth ?sq c = m"
  have won: "truthy (calculateWinner ?sq) \<longleftrightarrow> ?P"
    by (simp only: calculateWinner_def calculateWinner_loop_truthy line_won_fun)
  have full: "every_truthy ?sq \<longleftrightarrow> (\<forall>c\<in>set ?sq. c \<in> {StrX, StrO})"
    using assms(2) by (rule every_truthy_full)
  show ?thesis
    unfolding won [symmetric] full [symmetric] outcome_statusEffect by simp
qed

text \<open>The full board X O X / X O O / O X X has no line of three and is a draw.\<close>

theorem outcome_classification_witness:
  "length (squares drawn_board) = 9 \<and> Undefined \<notin> set (squares drawn_board)
   \<and> outcome (statusEffect drawn_board) = Draw"
proof -
  have len: "length (squares drawn_board) = 9"
    and holes: "Undefined \<notin> set (squares drawn_board)"
    and full: "\<forall>c\<in>set (squares drawn_board). c \<in> {StrX, StrO}"
    by (simp_all add: drawn_board_def)
  have no_line: "\<not> (\<exists>(a, b, c)\<in>set lines. \<exists>m\<in>{StrX, StrO}.
      js_nth (squares drawn_board) a = m \<and> js_nth (squares drawn_board) b = m
      \<and> js_nth (squares drawn_board) c = m)"
    by (simp add: drawn_board_def lines_def js_nth_def)
  from outcome_classification [OF len holes] full no_line
  have "outcome (statusEffect drawn_board) = Draw"
    by blast
  with len holes show ?thesis
    by blast
qed

section \<open>Highlighting the winning cells\<close>

lemma isCellWinning_loop_any:
  "isCellWinning_loop idx sq ls \<longleftrightarrow>
   (\<exists>(a, b, c)\<in>set ls. idx \<in> {a, b, c} \<and> line_won sq (a, b, c))"
  by (induction ls) (auto simp: line_won_def)

lemma find_Some_member: "find P xs = Some x \<Longrightarrow> x \<in> set xs \<and> P x"
  by (induction xs) (auto split: if_splits)

lemma double_win_board:
  "squares (run double_win_moves mounted)
     = [StrX, StrX, StrX, StrX, StrO, StrO, StrX, StrO, StrO]"
  by code_simp

text \<open>
  C2, as the code has it. \<open>isCellWinning\<close> is true of a cell exactly when the cell lies
  on some line, any of the eight, that holds the same mark three times. It is then
  true only of a won board, and it is true of every cell of the first won line.
\<close>

theorem isCellWinning_any_line:
  "(isCellWinning idx sq \<longleftrightarrow>
      (\<exists>(a, b, c)\<in>set lines. idx \<in> {a, b, c} \<and>
         (\<exists>m\<in>{StrX, StrO}. js_nth sq a = m \<and> js_nth sq b = m \<and> js_nth sq c = m)))
   \<and> (isCellWinning idx sq \<longrightarrow> truthy (calculateWinner sq))
   \<and> (spec_isCellInWinningLine idx sq \<longrightarrow> isCellWinning idx sq)"
proof -
  have any: "isCellWinning idx sq \<longleftrightarrow>
      (\<exists>(a, b, c)\<in>set lines. idx \<in> {a, b, c} \<and> line_won sq (a, b, c))"
    by (simp add: isCellWinning_def isCellWinning_loop_any)
  have first: "isCellWinning idx sq \<longleftrightarrow>
      (\<exists>(a, b, c)\<in>set lines. idx \<in> {a, b, c} \<and>
         (\<exists>m\<in>{StrX, StrO}. js_nth sq a = m \<and> js_nth sq b = m \<and> js_nth sq c = m))"
    by (simp only: any line_won_mark)
  have second: "isCellWinning idx sq \<longrightarrow> truthy (calculateWinner sq)"
    unfolding any calculateWinner_def calculateWinner_loop_truthy by blast
  have third: "spec_isCellInWinningLine idx sq \<longrightarrow> isCellWinning idx sq"
  proof
    assume "spec_isCellInWinningLine idx sq"
    then obtain a b c
      where found: "first_won_line sq = Some (a, b, c)" and member: "idx \<in> {a, b, c}"
      by (auto simp: spec_isCellInWinningLine_def split: option.splits)
    from found have "(a, b, c) \<in> set lines \<and> line_won sq (a, b, c)"
      unfolding first_won_line_def by (rule find_Some_member)
    with member show "isCellWinning idx sq"
      unfolding any by blast
  qed
  from first second third show ?thesis
    by blast
qed

text \<open>
  After the nine moves of \<open>double_win_moves\<close> the top row and the left column are both
  X. Cell 3 lies on the left column only: \<open>isCellWinning\<close> is true of it, although
  the first won line is the top row.
\<close>

theorem isCellWinning_first_line_counterexample:
  "isCellWinning 3 (squares (run double_win_moves mounted))
   \<noteq> spec_isCellInWinningLine 3 (squares (run double_win_moves mounted))"
  unfolding double_win_board by code_simp

theorem isCellWinning_any_line_witness:
  "isCellWinning 3 (squares (run double_win_moves mounted))
   \<and> truthy (calculateWinner (squares (run double_win_moves mounted)))
   \<and> spec_isCellInWinningLine 1 (squares (run double_win_moves mounted))
   \<and> isCellWinning 1 (squares (run double_win_moves mounted))"
proof -
  let ?sq = "squares (run double_win_moves mounted)"
  have left: "\<exists>(a, b, c)\<in>set lines. 3 \<in> {a, b, c} \<and>
         (\<exists>m\<in>{StrX, StrO}. js_nth ?sq a = m \<and> js_nth ?sq b = m \<and> js_nth ?sq c = m)"
    unfolding double_win_board by (simp add: lines_def js_nth_def)
  have top: "spec_isCellInWinningLine 1 ?sq"
    unfolding double_win_board by code_simp
  from isCellWinning_any_line [of 3 ?sq] left
  have "isCellWinning 3 ?sq" and "truthy (calculateWinner ?sq)"
    by blast+
  moreover from isCellWinning_any_line [of 1 ?sq] top
  have "isCellWinning 1 ?sq"
    by blast
  ultimately show ?thesis
    using top by blast
qed

section \<open>Reactions\<close>

lemma map_at_nth:
  "i < length ms \<Longrightarrow>
   map (\<lambda>(j, m). if j = idx then f m else m) (enumerate 0 ms) ! i
     = (if i = idx then f (ms ! i) else ms ! i)"
  by (simp add: nth_enumerate_eq)

lemma map_at_out_of_range:
  "length ms \<le> idx \<Longrightarrow> map (\<lambda>(j, m). if j = idx then f m else m) (enumerate 0 ms) = ms"
  by (rule nth_equalityI) (simp_all add: nth_enumerate_eq)

lemma reaction_count_react_same:
  "reaction_count (react_message emoji m) emoji = reaction_count m emoji + 1"
  by (simp add: reaction_count_def react_message_def split: option.splits)

lemma reactions_react_other:
  "e \<noteq> emoji \<Longrightarrow> reactions (react_message emoji m) e = reactions m e"
  by (simp add: react_message_def)

lemma react_message_fields:
  "msg_text (react_message emoji m) = msg_text m"
  "matchReactions (react_message emoji m) = matchReactions m"
  by (simp_all add: react_message_def)

lemma one_message_messages:
  "messages one_message = [\<lparr>msg_text = hi, reactions = Map.empty, matchReactions = 0\<rparr>]"
  by (simp add: one_message_def run_def handleSendMessage_def setChatInput_def trim_def
      hi_padded_def hi_def isWhiteSpace_def mounted_def statusEffect_def Let_def)

text \<open>
  C3, as the code has it. \<open>handleReact\<close> changes nothing when the index is not that of
  a message, whatever the symbol. When the index is that of a message and the symbol is
  one of \<open>EMOJIS\<close>, the count of that symbol on that message grows by exactly one (no
  entry counting as zero), every other symbol's entry on that message, the message's
  text and trophy count, every other message and the rest of the state stay as they
  were. The handler itself never looks at \<open>EMOJIS\<close>.
\<close>

theorem handleReact_effect:
  "(length (messages st) \<le> idx \<longrightarrow> handleReact idx emoji st = st)
   \<and> (idx < length (messages st) \<and> emoji \<in> set EMOJIS \<longrightarrow>
        length (messages (handleReact idx emoji st)) = length (messages st)
      \<and> reaction_count (messages (handleReact idx emoji st) ! idx) emoji
          = reaction_count (messages st ! idx) emoji + 1
      \<and> (\<forall>e. e \<noteq> emoji \<longrightarrow>
            reactions (messages (handleReact idx emoji st) ! idx) e
              = reactions (messages st ! idx) e)
      \<and> msg_text (messages (handleReact idx emoji st) ! idx) = msg_text (messages st ! idx)
      \<and> matchReactions (messages (handleReact idx emoji st) ! idx)
          = matchReactions (messages st ! idx)
      \<and> (\<forall>j<length (messages st). j \<noteq> idx \<longrightarrow>
            messages (handleReact idx emoji st) ! j = messages st ! j)
      \<and> handleReact idx emoji st = st\<lparr>messages := messages (handleReact idx emoji st)\<rparr>)"
proof (intro conjI impI)
  assume "length (messages st) \<le> idx"
  then show "handleReact idx emoji st = st"
    by (simp add: handleReact_def map_at_out_of_range)
next
  assume h: "idx < length (messages st) \<and> emoji \<in> set EMOJIS"
  then have at: "messages (handleReact idx emoji st) ! idx
                   = react_message emoji (messages st ! idx)"
    by (simp add: handleReact_def nth_enumerate_eq)
  show "length (messages (handleReact idx emoji st)) = length (messages st)"
    by (simp add: handleReact_def)
  show "reaction_count (messages (handleReact idx emoji st) ! idx) emoji
          = reaction_count (messages st ! idx) emoji + 1"
    by (simp only: at reaction_count_react_same)
  show "\<forall>e. e \<noteq> emoji \<longrightarrow>
            reactions (messages (handleReact idx emoji st) ! idx) e
              = reactions (messages st ! idx) e"
    by (simp add: at reactions_react_other)
  show "msg_text (messages (handleReact idx emoji st) ! idx) = msg_text (messages st ! idx)"
    by (simp only: at react_message_fields)
  show "matchReactions (messages (handleReact idx emoji st) ! idx)
          = matchReactions (messages st ! idx)"
    by (simp only: at react_message_fields)
  show "\<forall>j<length (messages st). j \<noteq> idx \<longrightarrow>
            messages (handleReact idx emoji st) ! j = messages st ! j"
    by (simp add: handleReact_def nth_enumerate_eq)
  show "handleReact idx emoji st = st\<lparr>messages := messages (handleReact idx emoji st)\<rparr>"
    by (simp add: handleReact_def)
qed

text \<open>
  The trophy is not one of \<open>EMOJIS\<close>, yet \<open>handleReact\<close> with the trophy on the only
  message changes the state: the message gets the entry \<open>1\<close> for it.
\<close>

theorem handleReact_alphabet_counterexample:
  "MATCH_REACTION_ICON \<notin> set EMOJIS
   \<and> handleReact 0 MATCH_REACTION_ICON one_message \<noteq> one_message"
proof
  show "MATCH_REACTION_ICON \<notin> set EMOJIS"
    by (simp add: MATCH_REACTION_ICON_def EMOJIS_def)
  have "reaction_count (messages (handleReact 0 MATCH_REACTION_ICON one_message) ! 0)
          MATCH_REACTION_ICON = 1"
    by (simp add: handleReact_def one_message_messages react_message_def reaction_count_def)
  moreover have "reaction_count (messages one_message ! 0) MATCH_REACTION_ICON = 0"
    by (simp add: one_message_messages reaction_count_def)
  ultimately show "handleReact 0 MATCH_REACTION_ICON one_message \<noteq> one_message"
    by auto
qed

text \<open>
  Two thumbs-up on the only message give the count 2 and leave the trophy without an
  entry; a thumbs-up on index 1, where there is no message, changes nothing.
\<close>

theorem handleReact_effect_witness:
  "0 < length (messages one_message) \<and> thumbs_up \<in> set EMOJIS
   \<and> reaction_count
        (messages (handleReact 0 thumbs_up (handleReact 0 thumbs_up one_message)) ! 0) thumbs_up = 2
   \<and> reactions
        (messages (handleReact 0 thumbs_up (handleReact 0 thumbs_up one_message)) ! 0)
        MATCH_REACTION_ICON = None
   \<and> length (messages one_message) \<le> 1 \<and> handleReact 1 thumbs_up one_message = one_message"
proof -
  let ?s1 = "handleReact 0 thumbs_up one_message"
  let ?s2 = "handleReact 0 thumbs_up ?s1"
  have len: "0 < length (messages one_message)" and len': "length (messages one_message) \<le> 1"
    by (simp_all add: one_message_messages)
  have alpha: "thumbs_up \<in> set EMOJIS"
    by (simp add: thumbs_up_def EMOJIS_def)
  have other: "MATCH_REACTION_ICON \<noteq> thumbs_up"
    by (simp add: thumbs_up_def MATCH_REACTION_ICON_def)
  have zero: "reaction_count (messages one_message ! 0) thumbs_up = 0"
    and none: "reactions (messages one_message ! 0) MATCH_REACTION_ICON = None"
    by (simp_all add: one_message_messages reaction_count_def)
  from handleReact_effect [of one_message 0 thumbs_up] len alpha
  have len1: "length (messages ?s1) = length (messages one_message)"
    and c1: "reaction_count (messages ?s1 ! 0) thumbs_up
               = reaction_count (messages one_message ! 0) thumbs_up + 1"
    and o1: "reactions (messages ?s1 ! 0) MATCH_REACTION_ICON
               = reactions (messages one_message ! 0) MATCH_REACTION_ICON"
    using other by blast+
  from len len1 have len2: "0 < length (messages ?s1)"
    by simp
  from handleReact_effect [of ?s1 0 thumbs_up] len2 alpha
  have c2: "reaction_count (messages ?s2 ! 0) thumbs_up
               = reaction_count (messages ?s1 ! 0) thumbs_up + 1"
    and o2: "reactions (messages ?s2 ! 0) MATCH_REACTION_ICON
               = reactions (messages ?s1 ! 0) MATCH_REACTION_ICON"
    using other by blast+
  from handleReact_effect [of one_message 1 thumbs_up] len'
  have noop: "handleReact 1 thumbs_up one_message = one_message"
    by blast
  from c1 c2 zero have two: "reaction_count (messages ?s2 ! 0) thumbs_up = 2"
    by simp
  from o1 o2 none have "reactions (messages ?s2 ! 0) MATCH_REACTION_ICON = None"
    by simp
  with len alpha two len' noop show ?thesis
    by blast
qed

section \<open>Moves, turns and reset\<close>

lemma statusEffect_keeps:
  "squares (statusEffect st) = squares st"
  "isXNext (statusEffect st) = isXNext st"
  "messages (statusEffect st) = messages st"
  "chatInput (statusEffect st) = chatInput st"
  by (simp_all add: statusEffect_def Let_def)

lemma statusEffect_idem: "statusEffect (statusEffect st) = statusEffect st"
  by (simp add: statusEffect_def Let_def)

lemma statusEffect_messages_update:
  "statusEffect (st\<lparr>messages := ms\<rparr>) = (statusEffect st)\<lparr>messages := ms\<rparr>"
  by (simp add: statusEffect_def Let_def)

lemma statusEffect_chatInput_update:
  "statusEffect (st\<lparr>chatInput := v\<rparr>) = (statusEffect st)\<lparr>chatInput := v\<rparr>"
  by (simp add: statusEffect_def Let_def)

lemma run_Nil: "run [] st = st"
  by (simp add: run_def)

lemma run_snoc: "run (cmds @ [c]) st = step (run cmds st) c"
  by (simp add: run_def)

lemma run_Cons: "run (c # cmds) st = run cmds (step st c)"
  by (simp add: run_def)

text \<open>Every state the component reaches is one the effect has already settled.\<close>

lemma step_settled: "statusEffect st = st \<Longrightarrow> statusEffect (step st c) = step st c"
proof (cases c)
  case (Click idx)
  assume "statusEffect st = st"
  then show ?thesis
    by (simp add: Click handleClick_def statusEffect_idem)
next
  case Reset
  show ?thesis
    by (simp add: Reset handleReset_def statusEffect_idem)
next
  case (Input v)
  assume "statusEffect st = st"
  then show ?thesis
    by (simp add: Input setChatInput_def statusEffect_chatInput_update)
next
  case Send
  assume "statusEffect st = st"
  then show ?thesis
    by (simp add: Send handleSendMessage_def Let_def statusEffect_chatInput_update
        statusEffect_messages_update)
next
  case (React idx emoji)
  assume "statusEffect st = st"
  then show ?thesis
    by (simp add: React handleReact_def statusEffect_messages_update)
next
  case (MatchReact idx)
  assume "statusEffect st = st"
  then show ?thesis
    by (simp add: MatchReact handleMatchReaction_def statusEffect_messages_update)
qed

lemma mounted_settled: "statusEffect mounted = mounted"
  by (simp add: mounted_def statusEffect_idem)

lemma run_settled: "statusEffect (run cmds mounted) = run cmds mounted"
  by (induction cmds rule: rev_induct) (simp_all add: run_Nil run_snoc mounted_settled step_settled)

lemma settled_draw:
  assumes "statusEffect st = st" and "isDraw st"
  shows "every_truthy (squares st)"
proof -
  from assms have "isDraw (statusEffect st)"
    by simp
  then show ?thesis
    by (simp add: statusEffect_def Let_def split: if_splits)
qed

text \<open>
  C4. In a state the effect has settled, with a board of nine cells and an index from 0
  to 8: a click on a cell that holds a mark, or a click while the outcome is a win or a
  draw, returns the state as it was, the board and the turn included. \<open>handleClick\<close>
  is a total function with no failing branch: the rejected click is its early return.
\<close>

theorem handleClick_rejected:
  assumes "statusEffect st = st"
    and "length (squares st) = 9" and "Undefined \<notin> set (squares st)" and "idx < 9"
    and "truthy (js_nth (squares st) idx) \<or> outcome st \<noteq> InProgress"
  shows "handleClick idx st = st"
proof (cases "truthy (js_nth (squares st) idx) \<or> truthy (winner st)")
  case True
  then show ?thesis
    by (simp add: handleClick_def)
next
  case False
  with assms(5) have "isDraw st"
    by (simp add: outcome_def split: if_splits)
  with assms(1) have "every_truthy (squares st)"
    by (rule settled_draw)
  with assms(3) have "\<forall>c\<in>set (squares st). c \<in> {StrX, StrO}"
    by (simp add: every_truthy_full)
  moreover from assms(2,4) have "squares st ! idx \<in> set (squares st)"
    by simp
  ultimately have "truthy (squares st ! idx)"
    by (simp add: truthy_mark)
  with assms(2,4) have "truthy (js_nth (squares st) idx)"
    by (simp add: js_nth_def)
  with False show ?thesis
    by simp
qed

lemma top_row_squares:
  "squares (run top_row_moves mounted)
     = [StrX, StrX, StrX, Null, StrO, StrO, Null, Null, Null]"
  by code_simp

lemma top_row_winner: "winner (run top_row_moves mounted) = StrX"
  by code_simp

text \<open>
  Once X holds the top row, a click on the empty cell 3 is rejected; so is a click on
  the occupied cell 4.
\<close>

theorem handleClick_rejected_witness:
  "statusEffect (run top_row_moves mounted) = run top_row_moves mounted
   \<and> length (squares (run top_row_moves mounted)) = 9
   \<and> Undefined \<notin> set (squares (run top_row_moves mounted))
   \<and> (3::nat) < 9 \<and> outcome (run top_row_moves mounted) \<noteq> InProgress
   \<and> handleClick 3 (run top_row_moves mounted) = run top_row_moves mounted
   \<and> (4::nat) < 9 \<and> truthy (js_nth (squares (run top_row_moves mounted)) 4)
   \<and> handleClick 4 (run top_row_moves mounted) = run top_row_moves mounted"
proof -
  let ?st = "run top_row_moves mounted"
  have settled: "statusEffect ?st = ?st"
    by (rule run_settled)
  have len: "length (squares ?st) = 9" and holes: "Undefined \<notin> set (squares ?st)"
    and occupied: "truthy (js_nth (squares ?st) 4)"
    by (simp_all add: top_row_squares js_nth_def)
  have won: "outcome ?st \<noteq> InProgress"
    by (simp add: outcome_def top_row_winner)
  have three: "(3::nat) < 9" and four: "(4::nat) < 9"
    by simp_all
  from won have "truthy (js_nth (squares ?st) 3) \<or> outcome ?st \<noteq> InProgress"
    by blast
  from handleClick_rejected [OF settled len holes three this]
  have r3: "handleClick 3 ?st = ?st" .
  from occupied have "truthy (js_nth (squares ?st) 4) \<or> outcome ?st \<noteq> InProgress"
    by blast
  from handleClick_rejected [OF settled len holes four this]
  have r4: "handleClick 4 ?st = ?st" .
  from settled len holes three won r3 four occupied r4 show ?thesis
    by blast
qed

lemma count_list_update_free:
  "i < length sq \<Longrightarrow> sq ! i \<noteq> m \<Longrightarrow>
   count_list (sq[i := v]) m = count_list sq m + (if v = m then 1 else 0)"
proof (induction sq arbitrary: i)
  case Nil
  then show ?case by simp
next
  case (Cons x sq)
  then show ?case by (cases i) auto
qed

lemma count_list_replicate_other: "x \<noteq> m \<Longrightarrow> count_list (replicate n x) m = 0"
  by (induction n) auto

lemma count_list_js_update:
  assumes "\<not> truthy (js_nth sq i)" and "truthy m"
  shows "count_list (js_update sq i v) m = count_list sq m + (if v = m then 1 else 0)"
proof (cases "i < length sq")
  case True
  with assms have "sq ! i \<noteq> m"
    by (auto simp: js_nth_def)
  with True show ?thesis
    by (simp add: js_update_def count_list_update_free)
next
  case False
  from assms(2) have "Undefined \<noteq> m"
    by auto
  with False show ?thesis
    by (simp add: js_update_def count_list_replicate_other)
qed

text \<open>X is ahead by one exactly while it is O's turn.\<close>

lemma handleClick_turn:
  assumes "count_list (squares st) StrX
             = count_list (squares st) StrO + (if isXNext st then 0 else 1)"
  shows "count_list (squares (handleClick idx st)) StrX
           = count_list (squares (handleClick idx st)) StrO
             + (if isXNext (handleClick idx st) then 0 else 1)"
proof (cases "truthy (js_nth (squares st) idx) \<or> truthy (winner st)")
  case True
  with assms show ?thesis
    by (simp add: handleClick_def)
next
  case False
  then have free: "\<not> truthy (js_nth (squares st) idx)"
    by simp
  from False have "handleClick idx st =
      statusEffect (st\<lparr>squares := js_update (squares st) idx (if isXNext st then StrX else StrO),
                        isXNext := \<not> isXNext st\<rparr>)"
    by (simp add: handleClick_def)
  with assms show ?thesis
    by (simp add: statusEffect_keeps count_list_js_update [OF free])
qed

lemma step_turn:
  assumes "count_list (squares st) StrX
             = count_list (squares st) StrO + (if isXNext st then 0 else 1)"
  shows "count_list (squares (step st c)) StrX
           = count_list (squares (step st c)) StrO + (if isXNext (step st c) then 0 else 1)"
proof (cases c)
  case (Click idx)
  with handleClick_turn [OF assms] show ?thesis
    by simp
next
  case Reset
  show ?thesis
    by (simp add: Reset handleReset_def statusEffect_keeps initialState_def
        count_list_replicate_other)
next
  case (Input v)
  with assms show ?thesis
    by (simp add: setChatInput_def)
next
  case Send
  with assms show ?thesis
    by (simp add: handleSendMessage_def Let_def)
next
  case (React idx emoji)
  with assms show ?thesis
    by (simp add: handleReact_def)
next
  case (MatchReact idx)
  with assms show ?thesis
    by (simp add: handleMatchReaction_def)
qed

lemma mounted_fields:
  "squares mounted = replicate 9 Null" "isXNext mounted" "messages mounted = []"
  "chatInput mounted = []"
  by (simp_all add: mounted_def statusEffect_keeps initialState_def)

lemma run_turn:
  "\<forall>c\<in>set cmds. on_board c \<Longrightarrow>
   count_list (squares (run cmds mounted)) StrX
     = count_list (squares (run cmds mounted)) StrO
       + (if isXNext (run cmds mounted) then 0 else 1)"
proof (induction cmds rule: rev_induct)
  case Nil
  show ?case
    by (simp add: run_Nil mounted_fields count_list_replicate_other)
next
  case (snoc c cmds)
  then have "count_list (squares (run cmds mounted)) StrX
     = count_list (squares (run cmds mounted)) StrO
       + (if isXNext (run cmds mounted) then 0 else 1)"
    by simp
  then show ?case
    unfolding run_snoc by (rule step_turn)
qed

lemma marks_counted:
  "length (filter truthy sq) = count_list sq StrX + count_list sq StrO"
proof (induction sq)
  case Nil
  show ?case by simp
next
  case (Cons x sq)
  then show ?case by (cases x) simp_all
qed

text \<open>Clicks on the nine buttons keep the board at nine cells without holes.\<close>

lemma step_board_shape:
  assumes "length (squares st) = 9 \<and> Undefined \<notin> set (squares st)" and "on_board c"
  shows "length (squares (step st c)) = 9 \<and> Undefined \<notin> set (squares (step st c))"
proof (cases c)
  case (Click idx)
  with assms(2) have "idx < length (squares st)"
    using assms(1) by simp
  with assms(1) show ?thesis
    by (auto simp: Click handleClick_def statusEffect_keeps js_update_def
        dest: set_update_subset_insert [THEN subsetD])
next
  case Reset
  show ?thesis
    by (simp add: Reset handleReset_def statusEffect_keeps initialState_def)
next
  case (Input v)
  with assms(1) show ?thesis
    by (simp add: setChatInput_def)
next
  case Send
  with assms(1) show ?thesis
    by (simp add: handleSendMessage_def Let_def)
next
  case (React idx emoji)
  with assms(1) show ?thesis
    by (simp add: handleReact_def)
next
  case (MatchReact idx)
  with assms(1) show ?thesis
    by (simp add: handleMatchReaction_def)
qed

lemma run_board_shape:
  "\<forall>c\<in>set cmds. on_board c \<Longrightarrow>
   length (squares (run cmds mounted)) = 9 \<and> Undefined \<notin> set (squares (run cmds mounted))"
proof (induction cmds rule: rev_induct)
  case Nil
  show ?case
    by (simp add: run_Nil mounted_fields)
next
  case (snoc c cmds)
  then show ?case
    unfolding run_snoc by (intro step_board_shape) simp_all
qed

text \<open>
  C5. After any sequence of events from the mounted component whose clicks are on the
  nine cells, the number of X on the board minus the number of O is 0 or 1. X moves
  first: the mounted board is empty and the turn is X's. Accepted moves alternate: a
  click on one of the nine cells that changes the state writes X into that cell when
  the two counts are equal and O when X is one ahead.
\<close>

theorem mark_count_difference:
  assumes "\<forall>c\<in>set cmds. on_board c" and "idx < 9"
  shows "int (count_list (squares (run cmds mounted)) StrX)
     - int (count_list (squares (run cmds mounted)) StrO) \<in> {0, 1}
   \<and> squares mounted = replicate 9 Null \<and> isXNext mounted
   \<and> (handleClick idx (run cmds mounted) \<noteq> run cmds mounted \<longrightarrow>
        squares (handleClick idx (run cmds mounted))
          = (squares (run cmds mounted))
              [idx := (if count_list (squares (run cmds mounted)) StrX
                          = count_list (squares (run cmds mounted)) StrO
                       then StrX else StrO)])"
proof -
  let ?st = "run cmds mounted"
  note inv = run_turn [OF assms(1)]
  from run_board_shape [OF assms(1)] assms(2) have inside: "idx < length (squares ?st)"
    by simp
  from inv have diff: "int (count_list (squares ?st) StrX)
     - int (count_list (squares ?st) StrO) \<in> {0, 1}"
    by (simp split: if_splits)
  from inv have turn: "isXNext ?st \<longleftrightarrow>
      count_list (squares ?st) StrX = count_list (squares ?st) StrO"
    by (simp split: if_splits)
  have move: "handleClick idx ?st \<noteq> ?st \<longrightarrow>
        squares (handleClick idx ?st)
          = (squares ?st)
              [idx := (if count_list (squares ?st) StrX = count_list (squares ?st) StrO
                       then StrX else StrO)]"
    unfolding turn [symmetric] using inside
    by (simp add: handleClick_def statusEffect_keeps js_update_def)
  from diff move show ?thesis
    by (simp add: mounted_fields)
qed

lemma one_move_squares:
  "squares (run [Click 0] mounted) = [StrX, Null, Null, Null, Null, Null, Null, Null, Null]"
  by code_simp

lemma two_moves_squares:
  "squares (handleClick 4 (run [Click 0] mounted))
     = [StrX, Null, Null, Null, StrO, Null, Null, Null, Null]"
  by code_simp

text \<open>After X at 0, the click on 4 is accepted and writes O into cell 4.\<close>

theorem mark_count_difference_witness:
  "list_all on_board [Click 0] \<and> (4::nat) < 9
   \<and> handleClick 4 (run [Click 0] mounted) \<noteq> run [Click 0] mounted
   \<and> squares (handleClick 4 (run [Click 0] mounted))
        = (squares (run [Click 0] mounted))[4 := StrO]
   \<and> int (count_list (squares (run [Click 0] mounted)) StrX)
        - int (count_list (squares (run [Click 0] mounted)) StrO) = 1"
proof -
  let ?st = "run [Click 0] mounted"
  have cells: "\<forall>c\<in>set [Click 0]. on_board c" and four: "(4::nat) < 9"
    by simp_all
  have changed: "handleClick 4 ?st \<noteq> ?st"
  proof
    assume "handleClick 4 ?st = ?st"
    then have "squares (handleClick 4 ?st) = squares ?st"
      by simp
    then show False
      by (simp add: one_move_squares two_moves_squares)
  qed
  have ahead: "count_list (squares ?st) StrX \<noteq> count_list (squares ?st) StrO"
    and one: "int (count_list (squares ?st) StrX) - int (count_list (squares ?st) StrO) = 1"
    by (simp_all add: one_move_squares)
  from mark_count_difference [OF cells four] changed ahead
  have "squares (handleClick 4 ?st) = (squares ?st)[4 := StrO]"
    by simp
  moreover have "list_all on_board [Click 0]"
    by simp
  ultimately show ?thesis
    using four changed one by blast
qed

text \<open>
  C10. After any sequence of events from the mounted component whose clicks are on the
  nine cells (moves, resets, chat events), it is X's turn exactly when the number of
  cells that hold a mark is even.
\<close>

theorem turn_matches_parity:
  assumes "\<forall>c\<in>set cmds. on_board c"
  shows "isXNext (run cmds mounted)
           \<longleftrightarrow> even (length (filter truthy (squares (run cmds mounted))))"
proof -
  let ?x = "count_list (squares (run cmds mounted)) StrX"
  let ?o = "count_list (squares (run cmds mounted)) StrO"
  from assms have "?x = ?o + (if isXNext (run cmds mounted) then 0 else 1)"
    by (rule run_turn)
  then have "isXNext (run cmds mounted) \<longleftrightarrow> even (?x + ?o)"
    by (simp split: if_splits)
  then show ?thesis
    by (simp only: marks_counted)
qed

text \<open>
  After the five moves 0, 4, 1, 5, 2 five cells hold a mark, and it is O's turn; after
  a reset no cell holds a mark, and it is X's turn.
\<close>

theorem turn_matches_parity_witness:
  "list_all on_board top_row_moves
   \<and> length (filter truthy (squares (run top_row_moves mounted))) = 5
   \<and> \<not> isXNext (run top_row_moves mounted)
   \<and> list_all on_board (top_row_moves @ [Reset])
   \<and> length (filter truthy (squares (run (top_row_moves @ [Reset]) mounted))) = 0
   \<and> isXNext (run (top_row_moves @ [Reset]) mounted)"
proof -
  have cells: "\<forall>c\<in>set top_row_moves. on_board c"
    and cells': "\<forall>c\<in>set (top_row_moves @ [Reset]). on_board c"
    by (simp_all add: top_row_moves_def)
  have five: "length (filter truthy (squares (run top_row_moves mounted))) = 5"
    by (simp add: top_row_squares)
  have "squares (run (top_row_moves @ [Reset]) mounted) = replicate 9 Null"
    by (simp add: run_snoc handleReset_def statusEffect_keeps initialState_def)
  then have none: "length (filter truthy (squares (run (top_row_moves @ [Reset]) mounted))) = 0"
    by simp
  from turn_matches_parity [OF cells] five
  have o_next: "\<not> isXNext (run top_row_moves mounted)"
    by simp
  from turn_matches_parity [OF cells'] none
  have x_next: "isXNext (run (top_row_moves @ [Reset]) mounted)"
    by simp
  from cells cells' have "list_all on_board top_row_moves"
    and "list_all on_board (top_row_moves @ [Reset])"
    by (simp_all only: list_all_iff)
  with five o_next none x_next show ?thesis
    by blast
qed

text \<open>
  C6, as the code has it. The moves 0, 4, 1, 5, 2 from the mounted component put X on
  0, 1, 2 and O on 4, 5: the board is X,X,X,_,O,O,_,_,_. The game is in progress after
  the first four moves; after the fifth X has won, and the first won line is the top
  row.
\<close>

theorem top_row_scenario:
  "squares (run top_row_moves mounted)
     = [StrX, StrX, StrX, Null, StrO, StrO, Null, Null, Null]
   \<and> outcome (run (butlast top_row_moves) mounted) = InProgress
   \<and> outcome (run top_row_moves mounted) = Win StrX
   \<and> status (run top_row_moves mounted) = ''Player 1 (X) wins!''
   \<and> first_won_line (squares (run top_row_moves mounted)) = Some (0, 1, 2)"
proof -
  have before: "outcome (run (butlast top_row_moves) mounted) = InProgress"
    by code_simp
  have text_shown: "status (run top_row_moves mounted) = ''Player 1 (X) wins!''"
    by code_simp
  have line: "first_won_line [StrX, StrX, StrX, Null, StrO, StrO, Null, Null, Null]
                = Some (0, 1, 2)"
    by code_simp
  from before text_shown line show ?thesis
    by (simp add: top_row_squares outcome_def top_row_winner)
qed

text \<open>
  The board after the five moves is not X,O,X,O,X,_,_,_,_: that is the order in which
  the marks were placed, not where they stand.
\<close>

theorem top_row_board_counterexample:
  "squares (run top_row_moves mounted)
     \<noteq> [StrX, StrO, StrX, StrO, StrX, Null, Null, Null, Null]"
  by (simp add: top_row_squares)

text \<open>
  C9. From any state, \<open>handleReset\<close> gives the mounted component's board state: nine
  empty cells, X to move, the game in progress, the status line of a fresh game. The
  messages, with their texts and counts, and the chat input are those of the state
  before.
\<close>

theorem handleReset_restores:
  "handleReset st = mounted\<lparr>messages := messages st, chatInput := chatInput st\<rparr>
   \<and> squares (handleReset st) = replicate 9 Null
   \<and> isXNext (handleReset st)
   \<and> outcome (handleReset st) = InProgress
   \<and> status (handleReset st) = ''Next: Player 1 (X)''
   \<and> messages (handleReset st) = messages st
   \<and> chatInput (handleReset st) = chatInput st"
proof -
  have fresh: "calculateWinner initialState = Null" "\<not> every_truthy initialState"
    by (simp_all add: calculateWinner_def lines_def js_nth_def initialState_def
        every_truthy_def list_all_iff)
  have eq: "handleReset st = mounted\<lparr>messages := messages st, chatInput := chatInput st\<rparr>"
    by (simp add: handleReset_def mounted_def statusEffect_def fresh)
  have shown: "status (handleReset st) = ''Next: Player 1 (X)''"
    and progress: "outcome (handleReset st) = InProgress"
    by (simp_all add: handleReset_def statusEffect_def fresh outcome_def)
  from eq shown progress show ?thesis
    by (simp add: mounted_fields)
qed

section \<open>The chat log\<close>

text \<open>
  What \<open>trim\<close> gives: the input is white space, the trimmed text, white space; the
  trimmed text is empty exactly when the input is all white space, and otherwise it
  neither starts nor ends with white space.
\<close>

lemma rev_dropWhile_takeWhile:
  "rev (dropWhile P (rev xs)) @ rev (takeWhile P (rev xs)) = xs"
proof -
  have "rev (takeWhile P (rev xs) @ dropWhile P (rev xs)) = rev (rev xs)"
    by (simp only: takeWhile_dropWhile_id)
  then show ?thesis
    by (simp only: rev_append rev_rev_ident)
qed

lemma trim_decompose:
  "\<exists>pre post. s = pre @ trim s @ post
     \<and> (\<forall>c\<in>set pre. isWhiteSpace c) \<and> (\<forall>c\<in>set post. isWhiteSpace c)"
proof -
  let ?d = "dropWhile isWhiteSpace s"
  let ?pre = "takeWhile isWhiteSpace s"
  let ?post = "rev (takeWhile isWhiteSpace (rev ?d))"
  have "?d = trim s @ ?post"
    unfolding trim_def by (rule rev_dropWhile_takeWhile [symmetric])
  moreover have "s = ?pre @ ?d"
    by simp
  ultimately have "s = ?pre @ trim s @ ?post"
    by simp
  moreover have "\<forall>c\<in>set ?pre. isWhiteSpace c"
    by (auto dest: set_takeWhileD)
  moreover have "\<forall>c\<in>set ?post. isWhiteSpace c"
    by (auto dest: set_takeWhileD)
  ultimately show ?thesis
    by blast
qed

lemma trim_empty_iff: "trim s = [] \<longleftrightarrow> (\<forall>c\<in>set s. isWhiteSpace c)"
proof
  assume "trim s = []"
  with trim_decompose [of s] show "\<forall>c\<in>set s. isWhiteSpace c"
    by (metis Un_iff append_Nil set_append)
next
  assume "\<forall>c\<in>set s. isWhiteSpace c"
  then have dropped: "dropWhile isWhiteSpace s = []"
    by simp
  show "trim s = []"
    by (simp add: trim_def dropped)
qed

lemma trim_ends:
  assumes "trim s \<noteq> []"
  shows "\<not> isWhiteSpace (hd (trim s)) \<and> \<not> isWhiteSpace (last (trim s))"
proof -
  let ?d = "dropWhile isWhiteSpace s"
  let ?r = "dropWhile isWhiteSpace (rev ?d)"
  from assms have r: "?r \<noteq> []"
    by (simp add: trim_def)
  then have "\<not> isWhiteSpace (hd ?r)"
    by (rule hd_dropWhile)
  with r have last: "\<not> isWhiteSpace (last (trim s))"
    by (simp add: trim_def last_rev)
  from r have d: "?d \<noteq> []"
    by (auto dest: set_dropWhileD)
  then have first: "\<not> isWhiteSpace (hd ?d)"
    by (rule hd_dropWhile)
  have "?d = trim s @ rev (takeWhile isWhiteSpace (rev ?d))"
    unfolding trim_def by (rule rev_dropWhile_takeWhile [symmetric])
  with assms have "hd ?d = hd (trim s)"
    by (metis hd_append2)
  with first last show ?thesis
    by simp
qed

text \<open>
  C7, as the code has it. \<open>handleSendMessage\<close> trims the chat input. If nothing is
  left, which is the case exactly when the input is all white space, the state is
  unchanged. Otherwise one message is appended, with the trimmed text, no reactions
  and trophy count 0; it stands at the index that was the length of the log, the
  earlier messages keep their places, and the input is cleared. The handler returns no
  value in either case.
\<close>

theorem handleSendMessage_effect:
  "fst (handleSendMessage st) = None
   \<and> (trim (chatInput st) = [] \<longleftrightarrow> (\<forall>c\<in>set (chatInput st). isWhiteSpace c))
   \<and> (trim (chatInput st) = [] \<longrightarrow> snd (handleSendMessage st) = st)
   \<and> (trim (chatInput st) \<noteq> [] \<longrightarrow>
        snd (handleSendMessage st)
          = st\<lparr>messages := messages st @
                  [\<lparr>msg_text = trim (chatInput st), reactions = Map.empty,
                    matchReactions = 0\<rparr>],
               chatInput := []\<rparr>
      \<and> length (messages (snd (handleSendMessage st))) = length (messages st) + 1
      \<and> messages (snd (handleSendMessage st)) ! length (messages st)
          = \<lparr>msg_text = trim (chatInput st), reactions = Map.empty, matchReactions = 0\<rparr>
      \<and> (\<forall>i<length (messages st).
            messages (snd (handleSendMessage st)) ! i = messages st ! i))"
proof (intro conjI impI)
  show "fst (handleSendMessage st) = None"
    by (simp add: handleSendMessage_def Let_def)
  show "trim (chatInput st) = [] \<longleftrightarrow> (\<forall>c\<in>set (chatInput st). isWhiteSpace c)"
    by (rule trim_empty_iff)
next
  assume "trim (chatInput st) = []"
  then show "snd (handleSendMessage st) = st"
    by (simp add: handleSendMessage_def)
next
  assume text_left: "trim (chatInput st) \<noteq> []"
  then show sent: "snd (handleSendMessage st)
          = st\<lparr>messages := messages st @
                  [\<lparr>msg_text = trim (chatInput st), reactions = Map.empty,
                    matchReactions = 0\<rparr>],
               chatInput := []\<rparr>"
    by (simp add: handleSendMessage_def Let_def)
  show "length (messages (snd (handleSendMessage st))) = length (messages st) + 1"
    by (simp add: sent)
  show "messages (snd (handleSendMessage st)) ! length (messages st)
          = \<lparr>msg_text = trim (chatInput st), reactions = Map.empty, matchReactions = 0\<rparr>"
    by (simp add: sent)
  show "\<forall>i<length (messages st).
            messages (snd (handleSendMessage st)) ! i = messages st ! i"
    by (simp add: sent nth_append)
qed

text \<open>
  The first message of a fresh chat is sent from \<^verbatim>\<open>"  hi  "\<close>: the handler returns no
  value, so it does not return the index 0 of the new message.
\<close>

theorem handleSendMessage_return_counterexample:
  "fst (handleSendMessage (setChatInput hi_padded mounted))
     \<noteq> Some (length (messages mounted))"
  by (simp add: handleSendMessage_def Let_def)

lemma trim_hi_padded: "trim hi_padded = hi"
  by (simp add: trim_def hi_padded_def hi_def isWhiteSpace_def)

lemma trim_blanks: "trim blanks = []"
  by (simp add: trim_def blanks_def isWhiteSpace_def)

text \<open>
  \<^verbatim>\<open>"  hi  "\<close> is stored as \<^verbatim>\<open>"hi"\<close> at index 0 of a fresh chat; \<^verbatim>\<open>"   "\<close> is rejected.
\<close>

theorem handleSendMessage_effect_witness:
  "trim (chatInput (setChatInput hi_padded mounted)) \<noteq> []
   \<and> messages (snd (handleSendMessage (setChatInput hi_padded mounted)))
        = [\<lparr>msg_text = hi, reactions = Map.empty, matchReactions = 0\<rparr>]
   \<and> trim (chatInput (setChatInput blanks one_message)) = []
   \<and> snd (handleSendMessage (setChatInput blanks one_message))
        = setChatInput blanks one_message"
proof -
  let ?typed = "setChatInput hi_padded mounted"
  let ?blank = "setChatInput blanks one_message"
  have typed: "trim (chatInput ?typed) = hi" "messages ?typed = []"
    by (simp_all add: setChatInput_def trim_hi_padded mounted_fields)
  then have left: "trim (chatInput ?typed) \<noteq> []"
    by (simp add: hi_def)
  have blank: "trim (chatInput ?blank) = []"
    by (simp add: setChatInput_def trim_blanks)
  from handleSendMessage_effect [of ?typed] left
  have "snd (handleSendMessage ?typed)
          = ?typed\<lparr>messages := messages ?typed @
                  [\<lparr>msg_text = trim (chatInput ?typed), reactions = Map.empty,
                    matchReactions = 0\<rparr>],
               chatInput := []\<rparr>"
    by blast
  then have stored: "messages (snd (handleSendMessage ?typed))
        = [\<lparr>msg_text = hi, reactions = Map.empty, matchReactions = 0\<rparr>]"
    by (simp add: typed)
  from handleSendMessage_effect [of ?blank] blank
  have "snd (handleSendMessage ?blank) = ?blank"
    by blast
  with left stored blank show ?thesis
    by blast
qed

lemma reaction_count_react:
  "reaction_count (react_message emoji m) e
     = reaction_count m e + (if e = emoji then 1 else 0)"
  by (simp add: reaction_count_def react_message_def split: option.splits)

lemma handleClick_messages: "messages (handleClick idx st) = messages st"
  by (simp add: handleClick_def statusEffect_keeps)

lemma handleReset_messages: "messages (handleReset st) = messages st"
  by (simp add: handleReset_def statusEffect_keeps)

lemma handleSendMessage_messages:
  "messages (snd (handleSendMessage st)) = messages st
   \<or> messages (snd (handleSendMessage st))
       = messages st @ [\<lparr>msg_text = trim (chatInput st), reactions = Map.empty,
                          matchReactions = 0\<rparr>]"
  by (simp add: handleSendMessage_def Let_def)

text \<open>
  One event never lowers a count of a message already in the log. The two lemmas on one
  event hold of the definitions for every symbol; the statements on event sequences are
  given for reactions with the symbols of \<open>EMOJIS\<close> and for the counts of those symbols.
\<close>

lemma step_counts_mono:
  assumes "i < length (messages st)"
  shows "i < length (messages (step st c))
       \<and> msg_text (messages (step st c) ! i) = msg_text (messages st ! i)
       \<and> reaction_count (messages st ! i) e \<le> reaction_count (messages (step st c) ! i) e
       \<and> matchReactions (messages st ! i) \<le> matchReactions (messages (step st c) ! i)"
proof (cases c)
  case (Click idx)
  with assms show ?thesis
    by (simp add: handleClick_messages)
next
  case Reset
  with assms show ?thesis
    by (simp add: handleReset_messages)
next
  case (Input v)
  with assms show ?thesis
    by (simp add: setChatInput_def)
next
  case Send
  from handleSendMessage_messages [of st] assms show ?thesis
    by (auto simp: Send nth_append)
next
  case (React idx emoji)
  with assms show ?thesis
    by (simp add: handleReact_def nth_enumerate_eq reaction_count_react react_message_fields)
next
  case (MatchReact idx)
  with assms show ?thesis
    by (simp add: handleMatchReaction_def nth_enumerate_eq reaction_count_def)
qed

lemma run_counts_mono:
  assumes "i < length (messages st)" and "e \<in> set EMOJIS"
  shows "\<forall>c\<in>set cmds. in_alphabet c \<Longrightarrow>
         i < length (messages (run cmds st))
       \<and> msg_text (messages (run cmds st) ! i) = msg_text (messages st ! i)
       \<and> reaction_count (messages st ! i) e \<le> reaction_count (messages (run cmds st) ! i) e
       \<and> matchReactions (messages st ! i) \<le> matchReactions (messages (run cmds st) ! i)"
proof (induction cmds rule: rev_induct)
  case Nil
  from assms show ?case
    by (simp add: run_Nil)
next
  case (snoc c cmds)
  then have before: "i < length (messages (run cmds st))
       \<and> msg_text (messages (run cmds st) ! i) = msg_text (messages st ! i)
       \<and> reaction_count (messages st ! i) e \<le> reaction_count (messages (run cmds st) ! i) e
       \<and> matchReactions (messages st ! i) \<le> matchReactions (messages (run cmds st) ! i)"
    by simp
  then have "i < length (messages (run cmds st))"
    by simp
  from step_counts_mono [OF this, of c e] before show ?case
    unfolding run_snoc by simp
qed

text \<open>No count of a stored message is negative.\<close>

lemma step_counts_nonneg:
  assumes "\<forall>i<length (messages st).
             0 \<le> matchReactions (messages st ! i)
             \<and> (\<forall>e. 0 \<le> reaction_count (messages st ! i) e)"
    and "i < length (messages (step st c))"
  shows "0 \<le> matchReactions (messages (step st c) ! i)
       \<and> (\<forall>e. 0 \<le> reaction_count (messages (step st c) ! i) e)"
proof (cases "i < length (messages st)")
  case True
  with assms(1) have before: "0 \<le> matchReactions (messages st ! i)"
    "\<And>e. 0 \<le> reaction_count (messages st ! i) e"
    by simp_all
  from step_counts_mono [OF True, of c] before show ?thesis
    by (metis order_trans)
next
  case False
  show ?thesis
  proof (cases c)
    case (Click idx)
    with False assms(2) show ?thesis
      by (simp add: handleClick_messages)
  next
    case Reset
    with False assms(2) show ?thesis
      by (simp add: handleReset_messages)
  next
    case (Input v)
    with False assms(2) show ?thesis
      by (simp add: setChatInput_def)
  next
    case Send
    from handleSendMessage_messages [of st] False assms(2) show ?thesis
      by (auto simp: Send nth_append reaction_count_def)
  next
    case (React idx emoji)
    with False assms(2) show ?thesis
      by (simp add: handleReact_def)
  next
    case (MatchReact idx)
    with False assms(2) show ?thesis
      by (simp add: handleMatchReaction_def)
  qed
qed

lemma run_counts_nonneg:
  "\<forall>c\<in>set cmds. in_alphabet c \<Longrightarrow>
   \<forall>i<length (messages (run cmds mounted)).
      0 \<le> matchReactions (messages (run cmds mounted) ! i)
      \<and> (\<forall>e. 0 \<le> reaction_count (messages (run cmds mounted) ! i) e)"
proof (induction cmds rule: rev_induct)
  case Nil
  show ?case
    by (simp add: run_Nil mounted_fields)
next
  case (snoc c cmds)
  then have before: "\<forall>i<length (messages (run cmds mounted)).
      0 \<le> matchReactions (messages (run cmds mounted) ! i)
      \<and> (\<forall>e. 0 \<le> reaction_count (messages (run cmds mounted) ! i) e)"
    by simp
  show ?case
    unfolding run_snoc using step_counts_nonneg [OF before] by blast
qed

text \<open>
  C8. Take any state reached from the mounted component and any further sequence of
  events (clicks, reset, typing, send, reactions, trophies), the reactions being with
  symbols of \<open>EMOJIS\<close>. The log does not get shorter; every message of the earlier
  state keeps its text; its trophy count and its count of each symbol of \<open>EMOJIS\<close> is
  at least 0 and is at least as large afterwards as before.
\<close>

theorem counts_monotone:
  assumes "\<forall>c\<in>set cmds. in_alphabet c" and "\<forall>c\<in>set later. in_alphabet c"
  shows "length (messages (run cmds mounted))
           \<le> length (messages (run later (run cmds mounted)))
   \<and> (\<forall>i<length (messages (run cmds mounted)).
        msg_text (messages (run later (run cmds mounted)) ! i)
          = msg_text (messages (run cmds mounted) ! i)
      \<and> 0 \<le> matchReactions (messages (run cmds mounted) ! i)
      \<and> matchReactions (messages (run cmds mounted) ! i)
          \<le> matchReactions (messages (run later (run cmds mounted)) ! i)
      \<and> (\<forall>e\<in>set EMOJIS.
            0 \<le> reaction_count (messages (run cmds mounted) ! i) e
            \<and> reaction_count (messages (run cmds mounted) ! i) e
                \<le> reaction_count (messages (run later (run cmds mounted)) ! i) e))"
proof -
  let ?st = "run cmds mounted"
  have some: "thumbs_up \<in> set EMOJIS"
    by (simp add: thumbs_up_def EMOJIS_def)
  have len: "length (messages ?st) \<le> length (messages (run later ?st))"
  proof (cases "messages ?st")
    case Nil
    then show ?thesis by simp
  next
    case (Cons m ms)
    then have "length (messages ?st) - 1 < length (messages ?st)"
      by simp
    from run_counts_mono [OF this some assms(2)]
    have "length (messages ?st) - 1 < length (messages (run later ?st))"
      by blast
    then show ?thesis
      by simp
  qed
  have each: "msg_text (messages (run later ?st) ! i) = msg_text (messages ?st ! i)
      \<and> 0 \<le> matchReactions (messages ?st ! i)
      \<and> matchReactions (messages ?st ! i) \<le> matchReactions (messages (run later ?st) ! i)
      \<and> (\<forall>e\<in>set EMOJIS.
            0 \<le> reaction_count (messages ?st ! i) e
            \<and> reaction_count (messages ?st ! i) e
                \<le> reaction_count (messages (run later ?st) ! i) e)"
    if "i < length (messages ?st)" for i
  proof -
    from run_counts_nonneg [OF assms(1)] that
    have nonneg: "0 \<le> matchReactions (messages ?st ! i)"
      "\<And>e. 0 \<le> reaction_count (messages ?st ! i) e"
      by simp_all
    from run_counts_mono [OF that some assms(2)]
    have kept: "msg_text (messages (run later ?st) ! i) = msg_text (messages ?st ! i)"
      and trophies: "matchReactions (messages ?st ! i)
                       \<le> matchReactions (messages (run later ?st) ! i)"
      by blast+
    have "reaction_count (messages ?st ! i) e
            \<le> reaction_count (messages (run later ?st) ! i) e"
      if "e \<in> set EMOJIS" for e
      using run_counts_mono [OF \<open>i < length (messages ?st)\<close> that assms(2)] by blast
    with nonneg kept trophies show ?thesis
      by blast
  qed
  from len each show ?thesis
    by blast
qed

lemma one_message_run: "one_message = run [Input hi_padded, Send] mounted"
  by (simp add: one_message_def)

text \<open>
  The message sent first starts with no thumbs-up and no trophy; after a thumbs-up, a
  trophy and a reset of the board it has one of each.
\<close>

theorem counts_monotone_witness:
  "list_all in_alphabet [Input hi_padded, Send]
   \<and> list_all in_alphabet [React 0 thumbs_up, MatchReact 0, Reset]
   \<and> 0 < length (messages (run [Input hi_padded, Send] mounted))
   \<and> thumbs_up \<in> set EMOJIS
   \<and> reaction_count (messages (run [Input hi_padded, Send] mounted) ! 0) thumbs_up = 0
   \<and> reaction_count
        (messages (run [React 0 thumbs_up, MatchReact 0, Reset]
                    (run [Input hi_padded, Send] mounted)) ! 0) thumbs_up = 1
   \<and> matchReactions
        (messages (run [React 0 thumbs_up, MatchReact 0, Reset]
                    (run [Input hi_padded, Send] mounted)) ! 0) = 1
   \<and> 0 \<le> reaction_count (messages (run [Input hi_padded, Send] mounted) ! 0) thumbs_up
   \<and> reaction_count (messages (run [Input hi_padded, Send] mounted) ! 0) thumbs_up
        \<le> reaction_count
            (messages (run [React 0 thumbs_up, MatchReact 0, Reset]
                        (run [Input hi_padded, Send] mounted)) ! 0) thumbs_up"
proof -
  let ?st = "run [Input hi_padded, Send] mounted"
  let ?after = "run [React 0 thumbs_up, MatchReact 0, Reset] ?st"
  have alpha: "thumbs_up \<in> set EMOJIS"
    by (simp add: thumbs_up_def EMOJIS_def)
  have first: "\<forall>c\<in>set [Input hi_padded, Send]. in_alphabet c"
    by simp
  have second: "\<forall>c\<in>set [React 0 thumbs_up, MatchReact 0, Reset]. in_alphabet c"
    by (simp add: alpha)
  have sent: "messages ?st = [\<lparr>msg_text = hi, reactions = Map.empty, matchReactions = 0\<rparr>]"
    using one_message_messages by (simp only: one_message_run)
  then have len: "0 < length (messages ?st)"
    by simp
  have zero: "reaction_count (messages ?st ! 0) thumbs_up = 0"
    by (simp add: sent reaction_count_def)
  have "messages (run [React 0 thumbs_up, MatchReact 0, Reset] one_message)
      = [\<lparr>msg_text = hi, reactions = [thumbs_up \<mapsto> 1], matchReactions = 1\<rparr>]"
    by (simp add: run_Cons run_Nil handleReact_def handleMatchReaction_def
        handleReset_messages one_message_messages react_message_def)
  then have after: "messages ?after
      = [\<lparr>msg_text = hi, reactions = [thumbs_up \<mapsto> 1], matchReactions = 1\<rparr>]"
    by (simp only: one_message_run)
  have one: "reaction_count (messages ?after ! 0) thumbs_up = 1"
    and trophy: "matchReactions (messages ?after ! 0) = 1"
    by (simp_all add: after reaction_count_def)
  from counts_monotone [OF first second] len alpha
  have "0 \<le> reaction_count (messages ?st ! 0) thumbs_up
      \<and> reaction_count (messages ?st ! 0) thumbs_up
          \<le> reaction_count (messages ?after ! 0) thumbs_up"
    by blast
  moreover from first second have "list_all in_alphabet [Input hi_padded, Send]"
    and "list_all in_alphabet [React 0 thumbs_up, MatchReact 0, Reset]"
    by (simp_all only: list_all_iff)
  ultimately show ?thesis
    using len alpha zero one trophy by blast
qed

end
